theory Spec2Isabelle
  imports Complex_Main
begin

section \<open>Adaptive smoothing (ASM.py)\<close>

text \<open>
  Python floats are idealised as real numbers.  The functions of numpy that the
  kernels call are \<open>np.abs\<close>, modelled by the absolute value, and \<open>np.exp\<close>.
  The exponential is passed to the kernels as their first argument \<open>np_exp\<close>, so
  that results can be stated for the mathematical exponential \<open>exp\<close> and for an
  exponential that underflows to zero, as the binary64 one does for arguments
  below about \<open>-745.13\<close>.

  The model divides by the window sizes with HOL's total division; numpy
  produces an infinity or a NaN for a zero window, which is outside the model.
\<close>

definition beta_free_flow ::
  "(real \<Rightarrow> real) \<Rightarrow> real \<Rightarrow> real \<Rightarrow> real \<Rightarrow> real \<Rightarrow> real \<Rightarrow> real \<Rightarrow> real \<Rightarrow> real" where
  "beta_free_flow np_exp x t x_s t_s x_win t_win c_free =
     (let dt = t - t_s - 3600 * (x - x_s) / c_free;
          dx = x - x_s
      in np_exp (- (2 * \<bar>dx\<bar> / x_win + 2 * \<bar>dt\<bar> / t_win)))"

definition beta_cong_flow ::
  "(real \<Rightarrow> real) \<Rightarrow> real \<Rightarrow> real \<Rightarrow> real \<Rightarrow> real \<Rightarrow> real \<Rightarrow> real \<Rightarrow> real \<Rightarrow> real" where
  "beta_cong_flow np_exp x t x_s t_s x_win t_win c_cong =
     (let dt = t - t_s - 3600 * (x - x_s) / c_cong;
          dx = x - x_s
      in np_exp (- (2 * \<bar>dx\<bar> / x_win + 2 * \<bar>dt\<bar> / t_win)))"

text \<open>The default characteristic speeds of the two kernels.\<close>

definition c_free_default :: real where
  "c_free_default = - 43"

definition c_cong_default :: real where
  "c_cong_default = 13"

text \<open>
  A row of \<open>speed_raw_df\<close>: the columns \<open>t\<close>, \<open>x\<close> and \<open>speed\<close> that
  \<open>EGTF\<close> reads.  The frame has been through \<open>dropna\<close>, so every cell is a number.
\<close>

record observation =
  obs_t :: real
  obs_x :: real
  obs_speed :: real

text \<open>The rows of the frame inside the box around the target (line 105).\<close>

definition EGTF_box :: "real \<Rightarrow> real \<Rightarrow> real \<Rightarrow> real \<Rightarrow> observation list \<Rightarrow> observation list" where
  "EGTF_box x t smooth_x_window smooth_t_window speed_raw_df =
     filter (\<lambda>v. \<bar>obs_t v - t\<bar> \<le> smooth_t_window / 2 \<and> \<bar>obs_x v - x\<bar> \<le> smooth_x_window / 2)
       speed_raw_df"

text \<open>The columns \<open>beta_free\<close> and \<open>beta_cong\<close> added to the box (lines 110 and 111).\<close>

definition beta_free_col ::
  "(real \<Rightarrow> real) \<Rightarrow> real \<Rightarrow> real \<Rightarrow> real \<Rightarrow> real \<Rightarrow> observation list \<Rightarrow> real list" where
  "beta_free_col np_exp x t smooth_x_window smooth_t_window speed =
     map (\<lambda>v. beta_free_flow np_exp x t (obs_x v) (obs_t v) smooth_x_window smooth_t_window
                  c_free_default) speed"

definition beta_cong_col ::
  "(real \<Rightarrow> real) \<Rightarrow> real \<Rightarrow> real \<Rightarrow> real \<Rightarrow> real \<Rightarrow> observation list \<Rightarrow> real list" where
  "beta_cong_col np_exp x t smooth_x_window smooth_t_window speed =
     map (\<lambda>v. beta_cong_flow np_exp x t (obs_x v) (obs_t v) smooth_x_window smooth_t_window
                  c_cong_default) speed"

text \<open>The weight-normalised average speed of a weight column (lines 113 and 114).\<close>

definition weighted_avg :: "real list \<Rightarrow> observation list \<Rightarrow> real" where
  "weighted_avg beta speed =
     sum_list (map2 (*) beta (map obs_speed speed)) / sum_list beta"

text \<open>
  The pair \<open>(EGTF_v_free, EGTF_v_cong)\<close> after the guard of line 112: both start
  at 80 and both are overwritten only when both weight sums are nonzero.
\<close>

definition EGTF_estimates ::
  "(real \<Rightarrow> real) \<Rightarrow> real \<Rightarrow> real \<Rightarrow> real \<Rightarrow> real \<Rightarrow> observation list \<Rightarrow> real \<times> real" where
  "EGTF_estimates np_exp x t smooth_x_window smooth_t_window speed_raw_df =
     (let speed = EGTF_box x t smooth_x_window smooth_t_window speed_raw_df;
          beta_free = beta_free_col np_exp x t smooth_x_window smooth_t_window speed;
          beta_cong = beta_cong_col np_exp x t smooth_x_window smooth_t_window speed
      in if sum_list beta_free \<noteq> 0 \<and> sum_list beta_cong \<noteq> 0
         then (weighted_avg beta_free speed, weighted_avg beta_cong speed)
         else (80, 80))"


text \<open>
  An exponential that underflows: binary64 \<open>np.exp\<close> returns \<open>0.0\<close> for every
  argument below about \<open>-745.13\<close>; above the threshold chosen here it is kept
  exact.
\<close>

definition exp_underflow :: "real \<Rightarrow> real" where
  "exp_underflow r = (if r < - 746 then 0 else exp r)"



definition obs_C :: observation where
  "obs_C = \<lparr>obs_t = 0, obs_x = 0, obs_speed = 20\<rparr>"

section \<open>Virtual trajectories (virtual_trajectory_generation.py, VT.py)\<close>

text \<open>
  The two files hold the same integrator; \<open>VT.py\<close> is the other one with the
  update rate fixed to its default.  The model follows
  \<open>virtual_trajectory_generation.py\<close>.

  A float is a real number or NaN; arithmetic on NaN gives NaN and every
  comparison with NaN is false, so that \<open>while x < 4.3\<close> ends on NaN.
  Rounding errors and infinities are not modelled.
\<close>

datatype fl = Fin real | NaN

fun fl_lift2 :: "(real \<Rightarrow> real \<Rightarrow> real) \<Rightarrow> fl \<Rightarrow> fl \<Rightarrow> fl" where
  "fl_lift2 f (Fin a) (Fin b) = Fin (f a b)"
| "fl_lift2 f _ _ = NaN"

definition fl_add :: "fl \<Rightarrow> fl \<Rightarrow> fl" where
  "fl_add = fl_lift2 (+)"

definition fl_sub :: "fl \<Rightarrow> fl \<Rightarrow> fl" where
  "fl_sub = fl_lift2 (-)"

definition fl_mul :: "fl \<Rightarrow> fl \<Rightarrow> fl" where
  "fl_mul = fl_lift2 (*)"

fun fl_div_const :: "fl \<Rightarrow> real \<Rightarrow> fl" where
  "fl_div_const (Fin a) c = Fin (a / c)"
| "fl_div_const NaN c = NaN"

fun fl_abs :: "fl \<Rightarrow> fl" where
  "fl_abs (Fin a) = Fin \<bar>a\<bar>"
| "fl_abs NaN = NaN"

fun fl_le :: "fl \<Rightarrow> fl \<Rightarrow> bool" where
  "fl_le (Fin a) (Fin b) = (a \<le> b)"
| "fl_le _ _ = False"

fun fl_lt :: "fl \<Rightarrow> fl \<Rightarrow> bool" where
  "fl_lt (Fin a) (Fin b) = (a < b)"
| "fl_lt _ _ = False"

text \<open>The exceptions that reach the caller.\<close>

datatype py_exn = QhullError | ValueError | ZeroDivisionError

text \<open>A row of the speed field: the columns \<open>t\<close>, \<open>x\<close> and \<open>speed\<close>.\<close>

record field_point =
  fp_t :: fl
  fp_x :: fl
  fp_speed :: fl

text \<open>
  \<open>scipy.interpolate.griddata\<close> is not part of the repository.  It is a
  parameter of the model: given the coordinates of the points, their values and
  the target, it returns a float or raises.
\<close>

type_synonym griddata = "fl list \<times> fl list \<Rightarrow> fl list \<Rightarrow> real \<times> real \<Rightarrow> py_exn + fl"

definition get_bi_cubic :: "griddata \<Rightarrow> real \<Rightarrow> real \<Rightarrow> field_point list \<Rightarrow> py_exn + fl" where
  "get_bi_cubic griddata target_time target_space data =
     (let data_small = filter (\<lambda>p. fl_le (fl_abs (fl_sub (fp_t p) (Fin target_time))) (Fin 8)
                                 \<and> fl_le (fl_abs (fl_sub (fp_x p) (Fin target_space))) (Fin 0.04)) data;
          time = map fp_t data_small;
          space = map fp_x data_small;
          speed = map fp_speed data_small
      in griddata (time, space) speed (target_time, target_space))"

text \<open>
  \<open>round(r, 0)\<close> of Python 3 and numpy: to the nearest whole number, a tie
  going to the even one.
\<close>

definition py_round :: "real \<Rightarrow> real" where
  "py_round r =
     (let f = \<lfloor>r\<rfloor>; d = r - of_int f
      in if d < 1 / 2 then of_int f
         else if 1 / 2 < d then of_int (f + 1)
         else if even f then of_int f else of_int (f + 1))"

text \<open>The float remainder \<open>a % b\<close> for a positive \<open>b\<close>.\<close>

definition py_mod :: "real \<Rightarrow> real \<Rightarrow> real" where
  "py_mod a b = a - b * of_int \<lfloor>a / b\<rfloor>"

text \<open>
  The rows with \<open>start_time < t \<le> end_time\<close> (lines 65, 75 and 76).
\<close>

definition ranged :: "field_point list \<Rightarrow> real \<Rightarrow> real \<Rightarrow> field_point list" where
  "ranged large_speed_field start_time end_time =
     filter (\<lambda>p. fl_le (fp_t p) (Fin end_time) \<and> fl_lt (Fin start_time) (fp_t p)) large_speed_field"

text \<open>A trajectory sample is the tuple \<open>(t, x, speed, v_id)\<close>.\<close>

type_synonym sample = "real \<times> fl \<times> fl \<times> int"

definition sample_time :: "sample \<Rightarrow> real" where
  "sample_time s = fst s"

definition sample_space :: "sample \<Rightarrow> fl" where
  "sample_space s = fst (snd s)"

definition sample_speed :: "sample \<Rightarrow> fl" where
  "sample_speed s = fst (snd (snd s))"

definition sample_vid :: "sample \<Rightarrow> int" where
  "sample_vid s = snd (snd (snd s))"

text \<open>
  The \<open>while\<close> loop of \<open>gen_VT\<close> (lines 70 to 77).  It may run forever, so
  the result is an option: \<open>None\<close> when the loop does not return, \<open>Some (Inl e)\<close>
  when the interpolation raises, \<open>Some (Inr traj)\<close> when it returns.
\<close>

partial_function (option) VT_loop ::
  "griddata \<Rightarrow> int \<Rightarrow> field_point list \<Rightarrow> real \<Rightarrow> real \<Rightarrow> fl \<Rightarrow> field_point list \<Rightarrow> sample list
     \<Rightarrow> (py_exn + sample list) option" where
  "VT_loop griddata v_id large_speed_field update_rate t x ranged_speed_field traj =
     (case x of
        NaN \<Rightarrow> Some (Inr traj)
      | Fin xr \<Rightarrow>
          if xr < 4.3 then
            (case get_bi_cubic griddata t xr ranged_speed_field of
               Inl e \<Rightarrow> Some (Inl e)
             | Inr speed \<Rightarrow>
                 (let x' = fl_add x (fl_div_const (fl_mul (Fin update_rate) speed) 3600);
                      t' = py_round (t + update_rate);
                      ranged_speed_field' =
                        (if py_mod (t' - 30) 300 = 0
                         then ranged large_speed_field (t' - 30) (t' + 900 - 30)
                         else ranged_speed_field)
                  in VT_loop griddata v_id large_speed_field update_rate t' x' ranged_speed_field'
                       (traj @ [(t', x', speed, v_id)])))
          else Some (Inr traj))"

declare VT_loop.simps [code]

definition gen_VT ::
  "griddata \<Rightarrow> real \<Rightarrow> int \<Rightarrow> field_point list \<Rightarrow> real \<Rightarrow> real \<Rightarrow> (py_exn + sample list) option" where
  "gen_VT griddata t0 v_id large_speed_field update_rate x0 =
     (let start_time = t0 - 30;
          end_time = t0 + 900 - 30;
          ranged_speed_field = ranged large_speed_field start_time end_time
      in case get_bi_cubic griddata t0 x0 ranged_speed_field of
           Inl e \<Rightarrow> Some (Inl e)
         | Inr v0 \<Rightarrow>
             VT_loop griddata v_id large_speed_field update_rate t0 (Fin x0) ranged_speed_field
               [(t0, Fin x0, v0, v_id)])"

text \<open>
  Sample \<open>i + 1\<close> of a trajectory carries the speed interpolated at the time
  and position of sample \<open>i\<close>, on the window cut out around the time of some
  sample \<open>j \<le> i\<close>, together with the time and position advanced from sample \<open>i\<close>.
\<close>

definition lagged :: "griddata \<Rightarrow> field_point list \<Rightarrow> real \<Rightarrow> sample list \<Rightarrow> nat \<Rightarrow> bool" where
  "lagged griddata large_speed_field update_rate traj i \<longleftrightarrow>
     (\<exists>xr j. j \<le> i \<and> sample_space (traj ! i) = Fin xr
        \<and> get_bi_cubic griddata (sample_time (traj ! i)) xr
             (ranged large_speed_field (sample_time (traj ! j) - 30)
                (sample_time (traj ! j) + 900 - 30))
           = Inr (sample_speed (traj ! Suc i))
        \<and> sample_time (traj ! Suc i) = py_round (sample_time (traj ! i) + update_rate)
        \<and> sample_space (traj ! Suc i)
           = fl_add (Fin xr)
               (fl_div_const (fl_mul (Fin update_rate) (sample_speed (traj ! Suc i))) 3600))"


text \<open>
  The baseline of the specification: the same integrator without the cache,
  every interpolation querying the whole field.
\<close>

partial_function (option) VT_loop_requery ::
  "griddata \<Rightarrow> int \<Rightarrow> field_point list \<Rightarrow> real \<Rightarrow> real \<Rightarrow> fl \<Rightarrow> sample list
     \<Rightarrow> (py_exn + sample list) option" where
  "VT_loop_requery griddata v_id large_speed_field update_rate t x traj =
     (case x of
        NaN \<Rightarrow> Some (Inr traj)
      | Fin xr \<Rightarrow>
          if xr < 4.3 then
            (case get_bi_cubic griddata t xr large_speed_field of
               Inl e \<Rightarrow> Some (Inl e)
             | Inr speed \<Rightarrow>
                 (let x' = fl_add x (fl_div_const (fl_mul (Fin update_rate) speed) 3600);
                      t' = py_round (t + update_rate)
                  in VT_loop_requery griddata v_id large_speed_field update_rate t' x'
                       (traj @ [(t', x', speed, v_id)])))
          else Some (Inr traj))"

declare VT_loop_requery.simps [code]

definition gen_VT_requery ::
  "griddata \<Rightarrow> real \<Rightarrow> int \<Rightarrow> field_point list \<Rightarrow> real \<Rightarrow> real \<Rightarrow> (py_exn + sample list) option" where
  "gen_VT_requery griddata t0 v_id large_speed_field update_rate x0 =
     (case get_bi_cubic griddata t0 x0 large_speed_field of
        Inl e \<Rightarrow> Some (Inl e)
      | Inr v0 \<Rightarrow>
          VT_loop_requery griddata v_id large_speed_field update_rate t0 (Fin x0)
            [(t0, Fin x0, v0, v_id)])"

subsection \<open>The fleet generator\<close>

text \<open>
  A DataFrame is an object on the heap: the store is the list of the frames
  allocated so far and a reference is an index into it.  \<open>copy\<close> allocates a
  new frame; assigning the column names or a column updates the frame at a
  reference.  Cells are floats; a row has one cell for each column.
\<close>

record dataframe =
  df_columns :: "string list"
  df_rows :: "fl list list"

type_synonym store = "dataframe list"

definition df_copy :: "store \<Rightarrow> nat \<Rightarrow> store \<times> nat" where
  "df_copy st a = (st @ [st ! a], length st)"

definition df_set_columns :: "store \<Rightarrow> nat \<Rightarrow> string list \<Rightarrow> py_exn + store" where
  "df_set_columns st a names =
     (if length names \<noteq> length (df_columns (st ! a)) then Inl ValueError
      else Inr (st[a := (st ! a)\<lparr>df_columns := names\<rparr>]))"

fun column_index :: "string list \<Rightarrow> string \<Rightarrow> nat" where
  "column_index [] name = 0"
| "column_index (c # cs) name = (if c = name then 0 else Suc (column_index cs name))"

definition df_reflect :: "store \<Rightarrow> nat \<Rightarrow> string \<Rightarrow> store" where
  "df_reflect st a name =
     st[a := (st ! a)\<lparr>df_rows :=
          map (\<lambda>row. row[column_index (df_columns (st ! a)) name :=
                           fl_sub (Fin 63) (row ! column_index (df_columns (st ! a)) name)])
            (df_rows (st ! a))\<rparr>]"

definition field_of :: "dataframe \<Rightarrow> field_point list" where
  "field_of df =
     map (\<lambda>row. \<lparr>fp_t = row ! column_index (df_columns df) ''t'',
                 fp_x = row ! column_index (df_columns df) ''x'',
                 fp_speed = row ! column_index (df_columns df) ''speed''\<rparr>) (df_rows df)"

text \<open>
  \<open>np.arange(start, stop, step)\<close> on integers: \<open>ceil((stop - start) / step)\<close>
  values, none when that is not positive; a zero step raises.
\<close>

definition np_arange :: "int \<Rightarrow> int \<Rightarrow> int \<Rightarrow> py_exn + int list" where
  "np_arange start stop step =
     (if step = 0 then Inl ZeroDivisionError
      else Inr (map (\<lambda>i. start + int i * step) [0..<nat (- ((start - stop) div step))]))"

text \<open>\<open>int(a / b)\<close>: the quotient as a float, truncated towards zero.\<close>

definition py_int_div :: "int \<Rightarrow> int \<Rightarrow> int" where
  "py_int_div a b =
     (let q = real_of_int a / real_of_int b in if 0 \<le> q then \<lfloor>q\<rfloor> else \<lceil>q\<rceil>)"

text \<open>\<open>round(r, 2)\<close>.\<close>

definition py_round2 :: "real \<Rightarrow> real" where
  "py_round2 r = py_round (r * 100) / 100"

text \<open>
  The \<open>for\<close> loop of \<open>gen_all_VT\<close> (lines 108 to 113) over the spawn times:
  the list \<open>vt_list\<close> of the trajectories, each reflected back by \<open>63 - space\<close>.
\<close>

fun gen_vt_list ::
  "griddata \<Rightarrow> field_point list \<Rightarrow> int \<Rightarrow> real \<Rightarrow> int list \<Rightarrow> (py_exn + sample list list) option" where
  "gen_vt_list griddata smooth_vt frequency traj_hz [] = Some (Inr [])"
| "gen_vt_list griddata smooth_vt frequency traj_hz (time # later) =
     (let k = py_int_div time frequency
      in if traj_hz = 0 then Some (Inl ZeroDivisionError)
         else
           (case gen_VT griddata (real_of_int time) k smooth_vt (py_round2 (1 / traj_hz)) 0.32 of
              None \<Rightarrow> None
            | Some (Inl e) \<Rightarrow> Some (Inl e)
            | Some (Inr traj) \<Rightarrow>
                (let vt = map (\<lambda>(time, space, speed, v_id). (time, fl_sub (Fin 63) space, speed, v_id))
                            traj
                 in case gen_vt_list griddata smooth_vt frequency traj_hz later of
                      None \<Rightarrow> None
                    | Some (Inl e) \<Rightarrow> Some (Inl e)
                    | Some (Inr vt_list) \<Rightarrow> Some (Inr (vt # vt_list)))))"

text \<open>
  \<open>gen_all_VT\<close> takes the store and the reference \<open>smooth_speed\<close> and returns
  the new store with the concatenated table, or with the exception raised:
  by the assignment of six column names to a frame of another width, by
  \<open>np.arange\<close>, by \<open>1 / traj_hz\<close>, by \<open>gen_VT\<close>, or by \<open>pd.concat\<close> of an
  empty list.
\<close>

definition gen_all_VT ::
  "griddata \<Rightarrow> store \<Rightarrow> nat \<Rightarrow> int \<Rightarrow> int \<Rightarrow> real \<Rightarrow> (store \<times> (py_exn + sample list)) option" where
  "gen_all_VT griddata st smooth_speed frequency hour traj_hz =
     (let (st1, smooth_vt) = df_copy st smooth_speed
      in case df_set_columns st1 smooth_vt
                [''t_index'', ''x_index'', ''raw_speed'', ''t'', ''x'', ''speed''] of
           Inl e \<Rightarrow> Some (st1, Inl e)
         | Inr st2 \<Rightarrow>
             (let st3 = df_reflect st2 smooth_vt ''x''
              in case np_arange 30 (30 + 3600 * hour + 1 - 120) frequency of
                   Inl e \<Rightarrow> Some (st3, Inl e)
                 | Inr spawn_times \<Rightarrow>
                     (case gen_vt_list griddata (field_of (st3 ! smooth_vt)) frequency traj_hz spawn_times of
                        None \<Rightarrow> None
                      | Some (Inl e) \<Rightarrow> Some (st3, Inl e)
                      | Some (Inr vt_list) \<Rightarrow>
                          if vt_list = [] then Some (st3, Inl ValueError)
                          else Some (st3, Inr (concat vt_list)))))"

subsection \<open>Stand-ins for the closed examples\<close>

text \<open>
  A stand-in for \<open>scipy.interpolate.griddata\<close> on neighbourhoods whose speeds
  are all equal and whose points are the corners of a rectangle: an empty set
  of points raises \<open>ValueError\<close>; one or two points cannot be triangulated
  and raise \<open>QhullError\<close>; a target outside the rectangle is outside the
  convex hull of its corners and gives NaN; inside, the cubic interpolant of a
  constant is that constant.
\<close>

definition griddata_uniform :: griddata where
  "griddata_uniform points values xi =
     (if values = [] then Inl ValueError
      else if length values < 3 then Inl QhullError
      else if list_ex (\<lambda>a. fl_le a (Fin (fst xi))) (fst points)
            \<and> list_ex (\<lambda>a. fl_le (Fin (fst xi)) a) (fst points)
            \<and> list_ex (\<lambda>a. fl_le a (Fin (snd xi))) (snd points)
            \<and> list_ex (\<lambda>a. fl_le (Fin (snd xi)) a) (snd points)
           then Inr (hd values)
           else Inr NaN)"

text \<open>Four field points at the corners of a rectangle around \<open>(t, x)\<close>, all with speed \<open>v\<close>.\<close>

definition patch :: "real \<Rightarrow> real \<Rightarrow> real \<Rightarrow> real \<Rightarrow> field_point list" where
  "patch t x w v =
     [\<lparr>fp_t = Fin (t - 4), fp_x = Fin (x - w), fp_speed = Fin v\<rparr>,
      \<lparr>fp_t = Fin (t - 4), fp_x = Fin (x + w), fp_speed = Fin v\<rparr>,
      \<lparr>fp_t = Fin (t + 4), fp_x = Fin (x - w), fp_speed = Fin v\<rparr>,
      \<lparr>fp_t = Fin (t + 4), fp_x = Fin (x + w), fp_speed = Fin v\<rparr>]"

text \<open>The same four points as rows of a smoothed table; the raw speed is missing.\<close>

definition df_patch :: "real \<Rightarrow> real \<Rightarrow> real \<Rightarrow> real \<Rightarrow> fl list list" where
  "df_patch t x w v =
     [[Fin 0, Fin 0, NaN, Fin (t - 4), Fin (x - w), Fin v],
      [Fin 0, Fin 1, NaN, Fin (t - 4), Fin (x + w), Fin v],
      [Fin 1, Fin 0, NaN, Fin (t + 4), Fin (x - w), Fin v],
      [Fin 1, Fin 1, NaN, Fin (t + 4), Fin (x + w), Fin v]]"

definition df_example :: dataframe where
  "df_example = \<lparr>df_columns = [''t'', ''x'', ''raw_speed'', ''time'', ''milemarker'', ''speed''],
                 df_rows = concat (map (\<lambda>i. df_patch (30 + 300 * real i) 62.68 0.02 144) [0..<12])\<rparr>"

definition df_small :: dataframe where
  "df_small = \<lparr>df_columns = [''t'', ''x'', ''raw_speed'', ''time'', ''milemarker'', ''speed''],
               df_rows = df_patch 30 62.68 0.02 144\<rparr>"


definition field_hull :: "field_point list" where
  "field_hull = patch 30 4.28 0.01 60"



definition field_stale :: "field_point list" where
  "field_stale = patch 30 0.32 0.02 3.6 @ patch 1030 1.32 0.02 10.8"

definition ex_all :: "sample list" where
  "ex_all = concat (map (\<lambda>i. [(30 + 300 * real i, Fin 62.68, Fin 144, int i),
                               (130 + 300 * real i, Fin 58.68, Fin 144, int i)]) [0..<12])"

subsection \<open>Predicates used in the statements\<close>



section \<open>Properties of the kernel weights\<close>

lemma np_exp_arg_nonpos:
  "0 < x_win \<Longrightarrow> 0 < t_win \<Longrightarrow> 0 \<le> 2 * \<bar>dx\<bar> / x_win + 2 * \<bar>dt\<bar> / (t_win::real)"
  by simp

lemma np_exp_arg_zero_iff:
  assumes "0 < x_win" "0 < (t_win::real)"
  shows "2 * \<bar>dx\<bar> / x_win + 2 * \<bar>dt\<bar> / t_win = 0 \<longleftrightarrow> dx = 0 \<and> dt = 0"
proof -
  have a: "0 \<le> 2 * \<bar>dx\<bar> / x_win" and b: "0 \<le> 2 * \<bar>dt\<bar> / t_win"
    using assms by simp_all
  have "2 * \<bar>dx\<bar> / x_win + 2 * \<bar>dt\<bar> / t_win = 0
          \<longleftrightarrow> 2 * \<bar>dx\<bar> / x_win = 0 \<and> 2 * \<bar>dt\<bar> / t_win = 0"
    using a b by (rule add_nonneg_eq_0_iff)
  also have "\<dots> \<longleftrightarrow> dx = 0 \<and> dt = 0"
    using assms by simp
  finally show ?thesis .
qed

lemma exp_neg_range:
  assumes "0 \<le> (a::real)"
  shows "0 < exp (- a) \<and> exp (- a) \<le> 1 \<and> (exp (- a) = 1 \<longleftrightarrow> a = 0)"
  using assms by simp

lemma kernel_weight_range:
  assumes "0 < x_win" "0 < (t_win::real)"
  shows "0 < exp (- (2 * \<bar>dx\<bar> / x_win + 2 * \<bar>dt\<bar> / t_win))
       \<and> exp (- (2 * \<bar>dx\<bar> / x_win + 2 * \<bar>dt\<bar> / t_win)) \<le> 1
       \<and> (exp (- (2 * \<bar>dx\<bar> / x_win + 2 * \<bar>dt\<bar> / t_win)) = 1 \<longleftrightarrow> dx = 0 \<and> dt = 0)"
  using exp_neg_range [OF np_exp_arg_nonpos [OF assms, of dx dt]]
    np_exp_arg_zero_iff [OF assms, of dx dt]
  by (simp only:)






section \<open>Properties of the regime-blending filter\<close>












lemma EGTF_fallback_estimates:
  assumes "sum_list (beta_free_col np_exp x t xw tw (EGTF_box x t xw tw df)) = 0
         \<or> sum_list (beta_cong_col np_exp x t xw tw (EGTF_box x t xw tw df)) = 0"
  shows "EGTF_estimates np_exp x t xw tw df = (80, 80)"
  using assms by (auto simp add: EGTF_estimates_def Let_def)

text \<open>
  Claim C3, as amended.  The guard of line 112 is a conjunction: as soon as one
  of the two weight sums is zero, neither estimate is computed and both keep
  the default 80.  The regime whose sum is nonzero does not contribute its
  average.
\<close>

theorem EGTF_one_sum_zero:
  assumes "sum_list (beta_free_col np_exp x t smooth_x_window smooth_t_window
                 (EGTF_box x t smooth_x_window smooth_t_window speed_raw_df)) = 0
         \<or> sum_list (beta_cong_col np_exp x t smooth_x_window smooth_t_window
                 (EGTF_box x t smooth_x_window smooth_t_window speed_raw_df)) = 0"
  shows "EGTF_estimates np_exp x t smooth_x_window smooth_t_window speed_raw_df = (80, 80)"
  using EGTF_fallback_estimates [OF assms] .

lemma box_C: "EGTF_box 0.02 0 0.15 0.01 [obs_C] = [obs_C]"
  by (simp add: EGTF_box_def obs_C_def)

lemma free_C: "beta_free_col exp_underflow 0.02 0 0.15 0.01 [obs_C] = [exp (- (216172 / 645))]"
  by (simp add: beta_free_col_def beta_free_flow_def c_free_default_def exp_underflow_def
      obs_C_def)

lemma cong_C: "beta_cong_col exp_underflow 0.02 0 0.15 0.01 [obs_C] = [0]"
  by (simp add: beta_cong_col_def beta_cong_flow_def c_cong_default_def exp_underflow_def
      obs_C_def)

theorem EGTF_one_sum_zero_witness:
  "(sum_list (beta_free_col exp_underflow 0.02 0 0.15 0.01 (EGTF_box 0.02 0 0.15 0.01 [obs_C])) = 0
     \<or> sum_list (beta_cong_col exp_underflow 0.02 0 0.15 0.01 (EGTF_box 0.02 0 0.15 0.01 [obs_C])) = 0)
   \<and> EGTF_estimates exp_underflow 0.02 0 0.15 0.01 [obs_C] = (80, 80)"
proof -
  have z: "sum_list (beta_free_col exp_underflow 0.02 0 0.15 0.01 (EGTF_box 0.02 0 0.15 0.01 [obs_C])) = 0
         \<or> sum_list (beta_cong_col exp_underflow 0.02 0 0.15 0.01 (EGTF_box 0.02 0 0.15 0.01 [obs_C])) = 0"
    unfolding box_C cong_C by simp
  show ?thesis
    using z EGTF_one_sum_zero [OF z] by blast
qed

text \<open>
  Claim C3 as stated fails.  One observation at \<open>(t, x) = (0, 0)\<close> with speed 20,
  target \<open>(x, t) = (0.02, 0)\<close>, windows 0.15 mile and 0.01 second: the free-flow
  weight is \<open>exp (-335.1...)\<close>, the congested weight has the argument
  \<open>-1107.9...\<close> and underflows to zero.  Exactly one sum is zero; the claim
  asks for the free-flow average as the free-flow estimate, and the code keeps
  80 for both.
\<close>

theorem EGTF_one_sum_zero_counterexample:
  "sum_list (beta_free_col exp_underflow 0.02 0 0.15 0.01 (EGTF_box 0.02 0 0.15 0.01 [obs_C])) \<noteq> 0
   \<and> sum_list (beta_cong_col exp_underflow 0.02 0 0.15 0.01 (EGTF_box 0.02 0 0.15 0.01 [obs_C])) = 0
   \<and> EGTF_estimates exp_underflow 0.02 0 0.15 0.01 [obs_C] = (80, 80)
   \<and> fst (EGTF_estimates exp_underflow 0.02 0 0.15 0.01 [obs_C])
        \<noteq> weighted_avg (beta_free_col exp_underflow 0.02 0 0.15 0.01
                          (EGTF_box 0.02 0 0.15 0.01 [obs_C]))
            (EGTF_box 0.02 0 0.15 0.01 [obs_C])"
proof -
  have z: "sum_list (beta_free_col exp_underflow 0.02 0 0.15 0.01 (EGTF_box 0.02 0 0.15 0.01 [obs_C])) = 0
         \<or> sum_list (beta_cong_col exp_underflow 0.02 0 0.15 0.01 (EGTF_box 0.02 0 0.15 0.01 [obs_C])) = 0"
    unfolding box_C cong_C by simp
  have avg: "weighted_avg (beta_free_col exp_underflow 0.02 0 0.15 0.01
                 (EGTF_box 0.02 0 0.15 0.01 [obs_C])) (EGTF_box 0.02 0 0.15 0.01 [obs_C]) = 20"
    unfolding box_C free_C by (simp add: weighted_avg_def obs_C_def)
  show ?thesis
    unfolding avg EGTF_fallback_estimates [OF z] unfolding box_C free_C cong_C by simp
qed

section \<open>Rounding and the refresh test\<close>

lemma py_round_cases:
  "(py_round r = of_int \<lfloor>r\<rfloor> \<and> r - of_int \<lfloor>r\<rfloor> \<le> 1 / 2)
   \<or> (py_round r = of_int (\<lfloor>r\<rfloor> + 1) \<and> 1 / 2 \<le> r - of_int \<lfloor>r\<rfloor>)"
  by (simp add: py_round_def Let_def del: of_int_add)



lemma py_round_int: "\<exists>n::int. py_round r = of_int n"
  using py_round_cases [of r] by blast

lemma py_round_of_int: "py_round (of_int n) = of_int n"
  by (simp add: py_round_def Let_def)

lemma py_mod_zero_iff: "py_mod a 300 = 0 \<longleftrightarrow> (\<exists>k::int. a = 300 * of_int k)"
proof
  assume "py_mod a 300 = 0"
  then have "a = 300 * of_int \<lfloor>a / 300\<rfloor>" by (simp add: py_mod_def)
  then show "\<exists>k::int. a = 300 * of_int k" ..
next
  assume "\<exists>k::int. a = 300 * of_int k"
  then obtain k :: int where "a = 300 * of_int k" ..
  then show "py_mod a 300 = 0" by (simp add: py_mod_def)
qed

section \<open>Reasoning about the integration loop\<close>

lemma VT_loop_induct [consumes 1, case_names exit_nan exit_far raise step]:
  assumes run: "VT_loop G vid lsf u t x rsf traj = Some res"
    and exit_nan: "\<And>t rsf traj. P t NaN rsf traj (Inr traj)"
    and exit_far: "\<And>t xr rsf traj. \<not> xr < 4.3 \<Longrightarrow> P t (Fin xr) rsf traj (Inr traj)"
    and raise: "\<And>t xr rsf traj e.
        xr < 4.3 \<Longrightarrow> get_bi_cubic G t xr rsf = Inl e \<Longrightarrow> P t (Fin xr) rsf traj (Inl e)"
    and step: "\<And>t xr rsf traj speed res.
        xr < 4.3 \<Longrightarrow> get_bi_cubic G t xr rsf = Inr speed \<Longrightarrow>
        VT_loop G vid lsf u (py_round (t + u))
          (fl_add (Fin xr) (fl_div_const (fl_mul (Fin u) speed) 3600))
          (if py_mod (py_round (t + u) - 30) 300 = 0
           then ranged lsf (py_round (t + u) - 30) (py_round (t + u) + 900 - 30) else rsf)
          (traj @ [(py_round (t + u),
                    fl_add (Fin xr) (fl_div_const (fl_mul (Fin u) speed) 3600), speed, vid)])
          = Some res \<Longrightarrow>
        P (py_round (t + u))
          (fl_add (Fin xr) (fl_div_const (fl_mul (Fin u) speed) 3600))
          (if py_mod (py_round (t + u) - 30) 300 = 0
           then ranged lsf (py_round (t + u) - 30) (py_round (t + u) + 900 - 30) else rsf)
          (traj @ [(py_round (t + u),
                    fl_add (Fin xr) (fl_div_const (fl_mul (Fin u) speed) 3600), speed, vid)])
          res \<Longrightarrow>
        P t (Fin xr) rsf traj res"
  shows "P t x rsf traj res"
proof -
  let ?Q = "\<lambda>G' vid' lsf' u' t x rsf traj res.
      G' = G \<and> vid' = vid \<and> lsf' = lsf \<and> u' = u
      \<longrightarrow> VT_loop G vid lsf u t x rsf traj = Some res \<and> P t x rsf traj res"
  have "?Q G vid lsf u t x rsf traj res"
  proof (rule VT_loop.raw_induct
      [where xa = "(((((((G, vid), lsf), u), t), x), rsf), traj)" and y = res and P = ?Q,
        unfolded prod.case])
    show "VT_loop G vid lsf u t x rsf traj = Some res" by (rule run)
  next
    fix loop G' vid' lsf' u' t x rsf traj res
    assume IH: "\<And>G' vid' lsf' u' t x rsf traj res.
        loop G' vid' lsf' u' t x rsf traj = Some res \<Longrightarrow> ?Q G' vid' lsf' u' t x rsf traj res"
      and body: "(case x of
          Fin xr \<Rightarrow>
            if xr < 43 / 10
            then case get_bi_cubic G' t xr rsf of
                 Inl e \<Rightarrow> Some (Inl e)
               | Inr speed \<Rightarrow>
                   let x' = fl_add x (fl_div_const (fl_mul (Fin u') speed) 3600);
                       t' = py_round (t + u');
                       ranged_speed_field' =
                         if py_mod (t' - 30) 300 = 0
                         then ranged lsf' (t' - 30) (t' + 900 - 30)
                         else rsf
                   in loop G' vid' lsf' u' t' x' ranged_speed_field' (traj @ [(t', x', speed, vid')])
            else Some (Inr traj)
        | NaN \<Rightarrow> Some (Inr traj)) = Some res"
    show "?Q G' vid' lsf' u' t x rsf traj res"
    proof (intro impI, elim conjE)
      assume eqs: "G' = G" "vid' = vid" "lsf' = lsf" "u' = u"
      show "VT_loop G vid lsf u t x rsf traj = Some res \<and> P t x rsf traj res"
      proof (cases x)
        case NaN
        then have r: "res = Inr traj" using body by simp
        show ?thesis unfolding r NaN using exit_nan by (subst VT_loop.simps) simp
      next
        case (Fin xr)
        show ?thesis
        proof (cases "xr < 4.3")
          case False
          then have r: "res = Inr traj" using body Fin by simp
          show ?thesis unfolding r Fin using exit_far [OF False] False
            by (subst VT_loop.simps) simp
        next
          case True
          show ?thesis
          proof (cases "get_bi_cubic G t xr rsf")
            case (Inl e)
            then have r: "res = Inl e" using body Fin True eqs by simp
            show ?thesis unfolding r Fin using raise [OF True Inl] True Inl
              by (subst VT_loop.simps) simp
          next
            case (Inr speed)
            have call: "loop G vid lsf u (py_round (t + u))
                (fl_add (Fin xr) (fl_div_const (fl_mul (Fin u) speed) 3600))
                (if py_mod (py_round (t + u) - 30) 300 = 0
                 then ranged lsf (py_round (t + u) - 30) (py_round (t + u) + 900 - 30) else rsf)
                (traj @ [(py_round (t + u),
                    fl_add (Fin xr) (fl_div_const (fl_mul (Fin u) speed) 3600), speed, vid)])
                = Some res"
              using body [unfolded eqs Fin] True Inr
              by (simp only: fl.case if_True sum.case Let_def)
            note ih = IH [OF call, rule_format, OF conjI [OF refl conjI [OF refl conjI [OF refl refl]]]]
            have "VT_loop G vid lsf u t (Fin xr) rsf traj = Some res"
              using conjunct1 [OF ih] True Inr by (subst VT_loop.simps) (simp add: Let_def)
            moreover have "P t (Fin xr) rsf traj res"
              using step [OF True Inr conjunct1 [OF ih] conjunct2 [OF ih]] .
            ultimately show ?thesis unfolding Fin by blast
          qed
        qed
      qed
    qed
  qed
  then show ?thesis by simp
qed

lemma VT_loop_invariant:
  assumes run: "VT_loop G vid lsf u t x rsf traj = Some (Inr r)"
    and init: "I t x rsf traj"
    and step: "\<And>t xr rsf traj speed.
        I t (Fin xr) rsf traj \<Longrightarrow> xr < 4.3 \<Longrightarrow> get_bi_cubic G t xr rsf = Inr speed \<Longrightarrow>
        I (py_round (t + u))
          (fl_add (Fin xr) (fl_div_const (fl_mul (Fin u) speed) 3600))
          (if py_mod (py_round (t + u) - 30) 300 = 0
           then ranged lsf (py_round (t + u) - 30) (py_round (t + u) + 900 - 30) else rsf)
          (traj @ [(py_round (t + u),
                    fl_add (Fin xr) (fl_div_const (fl_mul (Fin u) speed) 3600), speed, vid)])"
  shows "\<exists>t x rsf. I t x rsf r \<and> (\<forall>xr. x = Fin xr \<longrightarrow> \<not> xr < 4.3)"
proof -
  have "\<forall>r. res = Inr r \<longrightarrow> I t x rsf traj
          \<longrightarrow> (\<exists>t x rsf. I t x rsf r \<and> (\<forall>xr. x = Fin xr \<longrightarrow> \<not> xr < 4.3))"
    if "VT_loop G vid lsf u t x rsf traj = Some res" for res
    using that
  proof (induction rule: VT_loop_induct)
    case (exit_nan t rsf traj)
    then show ?case by blast
  next
    case (exit_far t xr rsf traj)
    then show ?case by blast
  next
    case (raise t xr rsf traj e)
    then show ?case by simp
  next
    case (step t xr rsf traj speed res)
    show ?case
      using step.IH assms(3) [OF _ step.hyps(1,2)] by blast
  qed
  then show ?thesis using run init by blast
qed




section \<open>Recorded speeds\<close>

lemma VT_loop_lagged:
  assumes run: "VT_loop G vid lsf u t x rsf traj = Some (Inr r)"
    and ne: "traj \<noteq> []"
    and lt: "sample_time (last traj) = t" and lx: "sample_space (last traj) = x"
    and win: "\<exists>j < length traj. rsf = ranged lsf (sample_time (traj ! j) - 30)
                                       (sample_time (traj ! j) + 900 - 30)"
    and lag: "\<forall>i. Suc i < length traj \<longrightarrow> lagged G lsf u traj i"
  shows "r \<noteq> [] \<and> r ! 0 = traj ! 0 \<and> (\<forall>i. Suc i < length r \<longrightarrow> lagged G lsf u r i)"
proof -
  let ?I = "\<lambda>t x rsf tr.
      tr \<noteq> [] \<and> tr ! 0 = traj ! 0
      \<and> sample_time (last tr) = t \<and> sample_space (last tr) = x
      \<and> (\<exists>j < length tr. rsf = ranged lsf (sample_time (tr ! j) - 30)
                                          (sample_time (tr ! j) + 900 - 30))
      \<and> (\<forall>i. Suc i < length tr \<longrightarrow> lagged G lsf u tr i)"
  have "\<exists>t x rsf. ?I t x rsf r \<and> (\<forall>xr. x = Fin xr \<longrightarrow> \<not> xr < 4.3)"
  proof (rule VT_loop_invariant [where I = ?I, OF run])
    show "?I t x rsf traj" using ne lt lx win lag by blast
  next
    fix t xr rsf tr speed
    assume inv: "?I t (Fin xr) rsf tr" and far: "xr < 4.3"
      and sp: "get_bi_cubic G t xr rsf = Inr speed"
    let ?t' = "py_round (t + u)"
    let ?x' = "fl_add (Fin xr) (fl_div_const (fl_mul (Fin u) speed) 3600)"
    let ?s = "(?t', ?x', speed, vid)"
    let ?tr' = "tr @ [?s]"
    let ?rsf' = "if py_mod (?t' - 30) 300 = 0
           then ranged lsf (?t' - 30) (?t' + 900 - 30) else rsf"
    from inv obtain j where j: "j < length tr"
      and rsf: "rsf = ranged lsf (sample_time (tr ! j) - 30) (sample_time (tr ! j) + 900 - 30)"
      by blast
    have tr_ne: "tr \<noteq> []" using inv by blast
    have old: "\<And>k. k < length tr \<Longrightarrow> ?tr' ! k = tr ! k" by (simp add: nth_append)
    have new: "?tr' ! length tr = ?s" by simp
    have lastn: "tr ! (length tr - 1) = last tr" using tr_ne by (simp add: last_conv_nth)
    have "\<exists>j' < length ?tr'. ?rsf' = ranged lsf (sample_time (?tr' ! j') - 30)
                                          (sample_time (?tr' ! j') + 900 - 30)"
    proof (cases "py_mod (?t' - 30) 300 = 0")
      case True
      have "?rsf' = ranged lsf (sample_time (?tr' ! length tr) - 30)
                               (sample_time (?tr' ! length tr) + 900 - 30)"
        using True by (simp add: sample_time_def)
      then show ?thesis by (intro exI [of _ "length tr"]) simp
    next
      case False
      have "?rsf' = ranged lsf (sample_time (?tr' ! j) - 30) (sample_time (?tr' ! j) + 900 - 30)"
        using False rsf old [OF j] by simp
      then show ?thesis using j by (intro exI [of _ j]) simp
    qed
    moreover have "\<forall>i. Suc i < length ?tr' \<longrightarrow> lagged G lsf u ?tr' i"
    proof (intro allI impI)
      fix i assume i: "Suc i < length ?tr'"
      show "lagged G lsf u ?tr' i"
      proof (cases "Suc i < length tr")
        case True
        then have "lagged G lsf u tr i" using inv by blast
        then obtain xr' j' where "j' \<le> i" "sample_space (tr ! i) = Fin xr'"
          "get_bi_cubic G (sample_time (tr ! i)) xr'
              (ranged lsf (sample_time (tr ! j') - 30) (sample_time (tr ! j') + 900 - 30))
            = Inr (sample_speed (tr ! Suc i))"
          "sample_time (tr ! Suc i) = py_round (sample_time (tr ! i) + u)"
          "sample_space (tr ! Suc i)
            = fl_add (Fin xr') (fl_div_const (fl_mul (Fin u) (sample_speed (tr ! Suc i))) 3600)"
          unfolding lagged_def by blast
        then show ?thesis
          unfolding lagged_def using True old [of i] old [of "Suc i"] old [of j']
          by (intro exI [of _ xr'] exI [of _ j']) simp
      next
        case False
        then have e: "i = length tr - 1" "Suc i = length tr" using i by simp_all
        have at_i: "?tr' ! i = last tr" using old [of i] lastn tr_ne e by simp
        have "j \<le> i" using j e by simp
        moreover have "sample_space (?tr' ! i) = Fin xr" "sample_time (?tr' ! i) = t"
          using at_i inv by simp_all
        moreover have "?tr' ! j = tr ! j" using old [OF j] .
        moreover have "?tr' ! Suc i = ?s" using new e by simp
        ultimately show ?thesis
          unfolding lagged_def using sp rsf
          by (intro exI [of _ xr] exI [of _ j])
            (simp add: sample_time_def sample_space_def sample_speed_def)
      qed
    qed
    moreover have "?tr' ! 0 = traj ! 0" using inv tr_ne old [of 0] by simp
    ultimately show "?I ?t' ?x' ?rsf' ?tr'"
      by (simp add: sample_time_def sample_space_def)
  qed
  then show ?thesis by blast
qed

text \<open>
  Claim C9.  In every trajectory that \<open>gen_VT\<close> returns, sample \<open>i + 1\<close>
  records the speed interpolated at the time and position of sample \<open>i\<close> (on
  the window cut out at the time of some sample \<open>j \<le> i\<close>), paired with the time
  and position already advanced from sample \<open>i\<close>; and with two samples or more,
  the second sample's speed is the first sample's speed.  NaN counts as equal
  to itself here: the two samples hold the same value.
\<close>

theorem gen_VT_speed_lags:
  assumes "gen_VT griddata t0 v_id large_speed_field update_rate x0 = Some (Inr traj)"
  shows "(\<forall>i. Suc i < length traj \<longrightarrow>
            (\<exists>xr j. j \<le> i \<and> sample_space (traj ! i) = Fin xr
               \<and> get_bi_cubic griddata (sample_time (traj ! i)) xr
                    (ranged large_speed_field (sample_time (traj ! j) - 30)
                       (sample_time (traj ! j) + 900 - 30))
                  = Inr (sample_speed (traj ! Suc i))
               \<and> sample_time (traj ! Suc i) = py_round (sample_time (traj ! i) + update_rate)
               \<and> sample_space (traj ! Suc i)
                  = fl_add (Fin xr)
                      (fl_div_const (fl_mul (Fin update_rate) (sample_speed (traj ! Suc i))) 3600)))
       \<and> (1 < length traj \<longrightarrow> sample_speed (traj ! 1) = sample_speed (traj ! 0))"
proof -
  obtain v0 where
    v0: "get_bi_cubic griddata t0 x0 (ranged large_speed_field (t0 - 30) (t0 + 900 - 30)) = Inr v0"
    and run: "VT_loop griddata v_id large_speed_field update_rate t0 (Fin x0)
            (ranged large_speed_field (t0 - 30) (t0 + 900 - 30)) [(t0, Fin x0, v0, v_id)]
          = Some (Inr traj)"
    using assms(1) by (auto simp add: gen_VT_def Let_def split: sum.splits)
  have res: "traj \<noteq> [] \<and> traj ! 0 = [(t0, Fin x0, v0, v_id)] ! 0
      \<and> (\<forall>i. Suc i < length traj \<longrightarrow> lagged griddata large_speed_field update_rate traj i)"
    by (rule VT_loop_lagged [OF run]) (simp_all add: sample_time_def sample_space_def)
  then have first: "traj ! 0 = (t0, Fin x0, v0, v_id)" by simp
  have all: "\<forall>i. Suc i < length traj \<longrightarrow> lagged griddata large_speed_field update_rate traj i"
    using res by blast
  have "sample_speed (traj ! 1) = sample_speed (traj ! 0)" if "1 < length traj"
  proof -
    have "lagged griddata large_speed_field update_rate traj 0" using all that by simp
    then obtain xr j where j: "j \<le> 0" and xr: "sample_space (traj ! 0) = Fin xr"
      and g: "get_bi_cubic griddata (sample_time (traj ! 0)) xr
                (ranged large_speed_field (sample_time (traj ! j) - 30)
                   (sample_time (traj ! j) + 900 - 30))
              = Inr (sample_speed (traj ! Suc 0))"
      unfolding lagged_def by blast
    have j0: "j = 0" using j by simp
    have "xr = x0" using xr first by (simp add: sample_space_def)
    then have "get_bi_cubic griddata t0 x0 (ranged large_speed_field (t0 - 30) (t0 + 900 - 30))
        = Inr (sample_speed (traj ! 1))"
      using g unfolding j0 first by (simp add: sample_time_def)
    then show ?thesis using v0 first by (simp add: sample_speed_def)
  qed
  then show ?thesis using all unfolding lagged_def by blast
qed

lemma VT_loop_ids:
  assumes run: "VT_loop G vid lsf u t x rsf traj = Some (Inr r)"
    and ne: "traj \<noteq> []"
    and ids: "\<forall>s \<in> set traj. sample_vid s = vid"
  shows "r \<noteq> [] \<and> hd r = hd traj \<and> (\<forall>s \<in> set r. sample_vid s = vid)"
proof -
  let ?I = "\<lambda>(t::real) (x::fl) (rsf::field_point list) tr.
      tr \<noteq> [] \<and> hd tr = hd traj \<and> (\<forall>s \<in> set tr. sample_vid s = vid)"
  have "\<exists>t x rsf. ?I t x rsf r \<and> (\<forall>xr. x = Fin xr \<longrightarrow> \<not> xr < 4.3)"
    by (rule VT_loop_invariant [where I = ?I, OF run])
      (use ne ids in \<open>auto simp add: sample_vid_def\<close>)
  then show ?thesis by blast
qed

section \<open>Termination\<close>


lemma VT_loop_exit_nan: "VT_loop G vid lsf u t NaN rsf traj = Some (Inr traj)"
  by (subst VT_loop.simps) simp

lemma VT_loop_raise:
  "xr < 4.3 \<Longrightarrow> get_bi_cubic G t xr rsf = Inl e
   \<Longrightarrow> VT_loop G vid lsf u t (Fin xr) rsf traj = Some (Inl e)"
  by (subst VT_loop.simps) simp




section \<open>The fleet generator\<close>

lemma gen_VT_shape:
  assumes "gen_VT G t0 vid lsf u x0 = Some (Inr traj)"
  shows "traj \<noteq> [] \<and> sample_time (hd traj) = t0 \<and> (\<forall>s \<in> set traj. sample_vid s = vid)"
proof -
  obtain v0 where
    run: "VT_loop G vid lsf u t0 (Fin x0) (ranged lsf (t0 - 30) (t0 + 900 - 30))
            [(t0, Fin x0, v0, vid)] = Some (Inr traj)"
    using assms(1) by (auto simp add: gen_VT_def Let_def split: sum.splits)
  have "traj \<noteq> [] \<and> hd traj = hd [(t0, Fin x0, v0, vid)] \<and> (\<forall>s \<in> set traj. sample_vid s = vid)"
    by (rule VT_loop_ids [OF run]) (simp_all add: sample_vid_def)
  then show ?thesis by (simp add: sample_time_def)
qed

lemma reflect_vid:
  "map sample_vid (map (\<lambda>(time, space, speed, v_id). (time, fl_sub (Fin 63) space, speed, v_id)) traj)
     = map sample_vid traj"
  by (induction traj) (auto simp add: sample_vid_def)

lemma reflect_time:
  "map sample_time (map (\<lambda>(time, space, speed, v_id). (time, fl_sub (Fin 63) space, speed, v_id)) traj)
     = map sample_time traj"
  by (induction traj) (auto simp add: sample_time_def)

lemma all_vid_map: "(\<forall>s \<in> set xs. sample_vid s = k) \<longleftrightarrow> (\<forall>v \<in> set (map sample_vid xs). v = k)"
  by auto

lemma hd_time_map: "xs \<noteq> [] \<Longrightarrow> sample_time (hd xs) = hd (map sample_time xs)"
  by (cases xs) simp_all

lemma reflect_shape:
  assumes "traj \<noteq> []" and "sample_time (hd traj) = t0" and "\<forall>s \<in> set traj. sample_vid s = k"
  shows "map (\<lambda>(time, space, speed, v_id). (time, fl_sub (Fin 63) space, speed, v_id)) traj \<noteq> []
       \<and> sample_time (hd (map (\<lambda>(time, space, speed, v_id).
                                   (time, fl_sub (Fin 63) space, speed, v_id)) traj)) = t0
       \<and> (\<forall>s \<in> set (map (\<lambda>(time, space, speed, v_id).
                               (time, fl_sub (Fin 63) space, speed, v_id)) traj).
             sample_vid s = k)"
proof (intro conjI)
  let ?r = "map (\<lambda>(time, space, speed, v_id). (time, fl_sub (Fin 63) space, speed, v_id)) traj"
  show ne: "?r \<noteq> []" using assms(1) by simp
  have "sample_time (hd ?r) = hd (map sample_time ?r)" using ne by (rule hd_time_map)
  also have "\<dots> = hd (map sample_time traj)" unfolding reflect_time ..
  also have "\<dots> = sample_time (hd traj)" using hd_time_map [OF assms(1)] by simp
  finally show "sample_time (hd ?r) = t0" using assms(2) by simp
  show "\<forall>s \<in> set ?r. sample_vid s = k"
    unfolding all_vid_map [of ?r] reflect_vid using assms(3) by simp
qed

lemma gen_vt_list_shape:
  "gen_vt_list G f freq hz ts = Some (Inr vts)
   \<Longrightarrow> length vts = length ts
       \<and> (\<forall>i < length ts. vts ! i \<noteq> []
             \<and> sample_time (hd (vts ! i)) = real_of_int (ts ! i)
             \<and> (\<forall>s \<in> set (vts ! i). sample_vid s = py_int_div (ts ! i) freq))"
proof (induction ts arbitrary: vts)
  case Nil
  then show ?case by simp
next
  case (Cons time later)
  have hz: "hz \<noteq> 0"
    using Cons.prems by (auto simp add: Let_def split: if_splits)
  obtain traj where
    g: "gen_VT G (real_of_int time) (py_int_div time freq) f (py_round2 (1 / hz)) 0.32
              = Some (Inr traj)"
    using Cons.prems hz
    by (cases "gen_VT G (real_of_int time) (py_int_div time freq) f (py_round2 (1 / hz)) 0.32")
      (auto simp add: Let_def split: sum.splits)
  obtain rest where
    r: "gen_vt_list G f freq hz later = Some (Inr rest)"
    using Cons.prems hz g
    by (cases "gen_vt_list G f freq hz later") (auto simp add: Let_def split: sum.splits)
  have v: "vts = map (\<lambda>(time, space, speed, v_id). (time, fl_sub (Fin 63) space, speed, v_id)) traj
                  # rest"
    using Cons.prems hz g r by (simp add: Let_def)
  note sh = gen_VT_shape [OF g]
  note rf = reflect_shape [OF conjunct1 [OF sh] conjunct1 [OF conjunct2 [OF sh]]
      conjunct2 [OF conjunct2 [OF sh]]]
  note ih = Cons.IH [OF r]
  have len: "length vts = length (time # later)" using v ih by simp
  have each: "vts ! i \<noteq> []
        \<and> sample_time (hd (vts ! i)) = real_of_int ((time # later) ! i)
        \<and> (\<forall>s \<in> set (vts ! i). sample_vid s = py_int_div ((time # later) ! i) freq)"
    if i: "i < length (time # later)" for i
  proof (cases i)
    case 0
    then show ?thesis unfolding v using rf by simp
  next
    case (Suc k)
    then have "k < length later" using i by simp
    then show ?thesis unfolding v Suc using ih by simp
  qed
  show ?case using len each by blast
qed

lemma gen_all_VT_fleet:
  assumes "gen_all_VT G st a frequency hour hz = Some (st', Inr vt_all)"
  shows "\<exists>f spawn vt_list.
           np_arange 30 (30 + 3600 * hour + 1 - 120) frequency = Inr spawn
           \<and> gen_vt_list G f frequency hz spawn = Some (Inr vt_list)
           \<and> vt_all = concat vt_list"
proof -
  obtain st1 b where cp: "df_copy st a = (st1, b)" by (cases "df_copy st a")
  obtain st2 where
    sc: "df_set_columns st1 b [''t_index'', ''x_index'', ''raw_speed'', ''t'', ''x'', ''speed'']
           = Inr st2"
    using assms cp
    by (cases "df_set_columns st1 b
                 [''t_index'', ''x_index'', ''raw_speed'', ''t'', ''x'', ''speed'']")
      (simp_all add: gen_all_VT_def)
  obtain spawn where ar: "np_arange 30 (30 + 3600 * hour + 1 - 120) frequency = Inr spawn"
    using assms cp sc
    by (cases "np_arange 30 (30 + 3600 * hour + 1 - 120) frequency")
      (simp_all add: gen_all_VT_def Let_def)
  let ?f = "field_of (df_reflect st2 b ''x'' ! b)"
  obtain vt_list where gl: "gen_vt_list G ?f frequency hz spawn = Some (Inr vt_list)"
    using assms cp sc ar
    by (cases "gen_vt_list G ?f frequency hz spawn")
      (auto simp add: gen_all_VT_def Let_def split: sum.splits)
  have "vt_all = concat vt_list"
    using assms cp sc ar gl by (simp add: gen_all_VT_def Let_def split: if_splits)
  then show ?thesis using ar gl by blast
qed

lemma spawn_times_300_1:
  "np_arange 30 (30 + 3600 * 1 + 1 - 120) 300
     = Inr [30, 330, 630, 930, 1230, 1530, 1830, 2130, 2430, 2730, 3030, 3330]"
  by code_simp

lemma spawn_ids_300_1:
  "map (\<lambda>time. py_int_div time 300)
       [30, 330, 630, 930, 1230, 1530, 1830, 2130, 2430, 2730, 3030, 3330]
     = [0, 1, 2, 3, 4, 5, 6, 7, 8, 9, 10, 11]"
  by code_simp

lemma spawn_times_300_1_map:
  "[30, 330, 630, 930, 1230, 1530, 1830, 2130, 2430, 2730, 3030, 3330]
     = map (\<lambda>i. 30 + 300 * int i) [0..<12]"
  by (simp add: upt_rec)

lemma py_int_div_spawn:
  assumes "0 \<le> i"
  shows "py_int_div (30 + 300 * i) 300 = i"
proof -
  have q: "real_of_int (30 + 300 * i) / real_of_int 300 = of_int i + 1 / 10"
    by simp
  have nn: "(0::real) \<le> of_int i + 1 / 10" using assms by simp
  have "\<lfloor>real_of_int i + 1 / 10\<rfloor> = i"
    by (rule floor_unique) simp_all
  then show ?thesis
    unfolding py_int_div_def q Let_def using nn by simp
qed

text \<open>
  Claim C8.  With \<open>frequency = 300\<close> and \<open>hour = 1\<close> the spawn times are the
  twelve values 30, 330, ..., 3330 of \<open>[30, 30 + 3600 - 120]\<close> in steps of 300,
  twelve being \<open>floor((3600 - 120 - 30) / 300) + 1\<close>.  A table that
  \<open>gen_all_VT\<close> returns is the concatenation of twelve non-empty trajectories,
  the \<open>i\<close>-th starting at time \<open>30 + 300 i\<close> and carrying in every sample the
  id \<open>int(time / frequency) = i\<close>.
\<close>

theorem gen_all_VT_fleet_300_1:
  assumes "gen_all_VT griddata st smooth_speed 300 1 traj_hz = Some (st', Inr vt_all)"
  shows "np_arange 30 (30 + 3600 * 1 + 1 - 120) 300
           = Inr [30, 330, 630, 930, 1230, 1530, 1830, 2130, 2430, 2730, 3030, 3330]
       \<and> map (\<lambda>time. py_int_div time 300)
             [30, 330, 630, 930, 1230, 1530, 1830, 2130, 2430, 2730, 3030, 3330]
           = [0, 1, 2, 3, 4, 5, 6, 7, 8, 9, 10, 11]
       \<and> (\<exists>vt_list. vt_all = concat vt_list
             \<and> int (length vt_list) = \<lfloor>(3600 - 120 - 30) / (300 :: real)\<rfloor> + 1
             \<and> length vt_list = 12
             \<and> (\<forall>i < 12. vt_list ! i \<noteq> []
                   \<and> sample_time (hd (vt_list ! i)) = 30 + 300 * real i
                   \<and> (\<forall>s \<in> set (vt_list ! i).
                         sample_vid s = py_int_div (30 + 300 * int i) 300
                         \<and> sample_vid s = int i)))"
proof -
  let ?ts = "[30, 330, 630, 930, 1230, 1530, 1830, 2130, 2430, 2730, 3030, 3330] :: int list"
  obtain f vt_list where
    l: "gen_vt_list griddata f 300 traj_hz ?ts = Some (Inr vt_list)"
    and c: "vt_all = concat vt_list"
    using assms gen_all_VT_fleet [of griddata st smooth_speed 300 1 traj_hz st' vt_all]
    unfolding spawn_times_300_1 by auto
  note sh = gen_vt_list_shape [OF l]
  have len: "length vt_list = 12" using sh by simp
  have cnt: "int (length vt_list) = \<lfloor>(3600 - 120 - 30) / (300 :: real)\<rfloor> + 1"
    unfolding len by simp
  have each: "vt_list ! i \<noteq> []
        \<and> sample_time (hd (vt_list ! i)) = 30 + 300 * real i
        \<and> (\<forall>s \<in> set (vt_list ! i).
              sample_vid s = py_int_div (30 + 300 * int i) 300 \<and> sample_vid s = int i)"
    if i: "i < 12" for i
  proof -
    have nth: "?ts ! i = 30 + 300 * int i"
      unfolding spawn_times_300_1_map using i by simp
    have "vt_list ! i \<noteq> []
        \<and> sample_time (hd (vt_list ! i)) = real_of_int (?ts ! i)
        \<and> (\<forall>s \<in> set (vt_list ! i). sample_vid s = py_int_div (?ts ! i) 300)"
      using sh i by simp
    then show ?thesis
      unfolding nth using py_int_div_spawn [of "int i"] by simp
  qed
  show ?thesis
    using spawn_times_300_1 spawn_ids_300_1 c cnt len each by blast
qed

section \<open>The caller's table, and closed examples\<close>

lemma gen_all_VT_store:
  assumes "gen_all_VT G st a frequency hour hz = Some (st', r)"
  shows "\<exists>c. st' = st @ [c]"
proof -
  have cp: "df_copy st a = (st @ [st ! a], length st)" by (simp add: df_copy_def)
  let ?names = "[''t_index'', ''x_index'', ''raw_speed'', ''t'', ''x'', ''speed'']"
  show ?thesis
  proof (cases "df_set_columns (st @ [st ! a]) (length st) ?names")
    case (Inl e)
    then have "st' = st @ [st ! a]" using assms cp by (simp add: gen_all_VT_def)
    then show ?thesis by blast
  next
    case (Inr st2)
    then obtain c2 where st2: "st2 = st @ [c2]"
      by (auto simp add: df_set_columns_def split: if_splits)
    obtain c3 where st3: "df_reflect st2 (length st) ''x'' = st @ [c3]"
      unfolding st2 by (simp add: df_reflect_def)
    have "st' = df_reflect st2 (length st) ''x''"
      using assms cp Inr
      by (auto simp add: gen_all_VT_def Let_def split: sum.splits option.splits if_splits)
    then show ?thesis using st3 by blast
  qed
qed

text \<open>
  Claim C10.  Whatever \<open>gen_all_VT\<close> returns, a table or an exception, the
  frame at the reference \<open>smooth_speed\<close> has the column names and the rows it
  had before: the call allocates one new frame, the copy, and changes nothing
  else in the store.
\<close>

theorem gen_all_VT_preserves_input:
  assumes "smooth_speed < length st"
    and "gen_all_VT griddata st smooth_speed frequency hour traj_hz = Some (st', r)"
  shows "st' ! smooth_speed = st ! smooth_speed
       \<and> df_columns (st' ! smooth_speed) = df_columns (st ! smooth_speed)
       \<and> df_rows (st' ! smooth_speed) = df_rows (st ! smooth_speed)
       \<and> length st' = Suc (length st) \<and> take (length st) st' = st"
proof -
  obtain c where "st' = st @ [c]" using gen_all_VT_store [OF assms(2)] by blast
  then show ?thesis using assms(1) by (simp add: nth_append)
qed

lemma eval_small:
  "map_option snd (gen_all_VT griddata_uniform [df_small] 0 3600 1 (1/100))
     = Some (Inr [(30, Fin 62.68, Fin 144, 0), (130, Fin 58.68, Fin 144, 0)])"
  by code_simp

theorem gen_all_VT_preserves_input_witness:
  "(0::nat) < length [df_small]
   \<and> map_option snd (gen_all_VT griddata_uniform [df_small] 0 3600 1 (1/100))
        = Some (Inr [(30, Fin 62.68, Fin 144, 0), (130, Fin 58.68, Fin 144, 0)])
   \<and> map_option (\<lambda>p. fst p ! 0) (gen_all_VT griddata_uniform [df_small] 0 3600 1 (1/100))
        = Some df_small"
proof -
  obtain st' r where run: "gen_all_VT griddata_uniform [df_small] 0 3600 1 (1/100) = Some (st', r)"
    using eval_small by (cases "gen_all_VT griddata_uniform [df_small] 0 3600 1 (1/100)") auto
  have h: "(0::nat) < length [df_small]" by simp
  have "st' ! 0 = [df_small] ! 0"
    using gen_all_VT_preserves_input [OF h run] by blast
  then show ?thesis using eval_small run by simp
qed

lemma eval_all:
  "map_option snd (gen_all_VT griddata_uniform [df_example] 0 300 1 (1/100)) = Some (Inr ex_all)"
  by code_simp

theorem gen_all_VT_fleet_300_1_witness:
  "map_option snd (gen_all_VT griddata_uniform [df_example] 0 300 1 (1/100)) = Some (Inr ex_all)
   \<and> np_arange 30 (30 + 3600 * 1 + 1 - 120) 300
        = Inr [30, 330, 630, 930, 1230, 1530, 1830, 2130, 2430, 2730, 3030, 3330]
   \<and> map (\<lambda>time. py_int_div time 300)
          [30, 330, 630, 930, 1230, 1530, 1830, 2130, 2430, 2730, 3030, 3330]
        = [0, 1, 2, 3, 4, 5, 6, 7, 8, 9, 10, 11]"
proof -
  obtain st' where run:
    "gen_all_VT griddata_uniform [df_example] 0 300 1 (1/100) = Some (st', Inr ex_all)"
    using eval_all by (cases "gen_all_VT griddata_uniform [df_example] 0 300 1 (1/100)") auto
  show ?thesis
    using eval_all gen_all_VT_fleet_300_1 [OF run] by blast
qed


lemma run_hull:
  "gen_VT griddata_uniform 30 7 field_hull 1 4.28
     = Some (Inr [(30, Fin 4.28, Fin 60, 7), (31, Fin (1289 / 300), Fin 60, 7), (32, NaN, NaN, 7)])"
  by code_simp



lemma run_stale:
  "gen_VT griddata_uniform 30 0 field_stale 1000 0.32 = Some (Inl ValueError)"
  by code_simp

lemma run_stale_requery:
  "gen_VT_requery griddata_uniform 30 0 field_stale 1000 0.32
     = Some (Inr [(30, Fin 0.32, Fin 3.6, 0), (1030, Fin 1.32, Fin 3.6, 0),
                  (2030, Fin 4.32, Fin 10.8, 0)])"
  by code_simp



theorem gen_VT_speed_lags_witness:
  "gen_VT griddata_uniform 30 7 field_hull 1 4.28
     = Some (Inr [(30, Fin 4.28, Fin 60, 7), (31, Fin (1289 / 300), Fin 60, 7), (32, NaN, NaN, 7)])
   \<and> 1 < length [(30, Fin 4.28, Fin 60, 7), (31 :: real, Fin (1289 / 300), Fin 60, 7 :: int),
                  (32, NaN, NaN, 7)]
   \<and> sample_speed (31, Fin (1289 / 300), Fin 60, 7) = sample_speed (30, Fin 4.28, Fin 60, 7)"
  using gen_VT_speed_lags [OF run_hull] run_hull by simp

text \<open>
  Claim C5.  The docstring of \<open>gen_VT\<close> promises that the speed field is
  refreshed every 300 seconds, and the comment at line 64 that the window only
  accelerates the calculation.  The refresh is tested by
  \<open>(t - 30) % 300 == 0\<close> on the time after the step, so an update rate that
  steps over the times \<open>30 + 300 k\<close> never refreshes.  With the update rate 1000
  the time goes from 30 to 1030 and the window still ends at 900: the
  interpolation finds no point around 1030 and raises \<open>ValueError\<close>, while
  the whole field has the points and the integrator that queries it at every
  step returns a trajectory.
\<close>

theorem gen_VT_cache_goes_stale:
  "gen_VT griddata_uniform 30 0 field_stale 1000 0.32 = Some (Inl ValueError)
   \<and> gen_VT_requery griddata_uniform 30 0 field_stale 1000 0.32
       = Some (Inr [(30, Fin 0.32, Fin 3.6, 0), (1030, Fin 1.32, Fin 3.6, 0),
                    (2030, Fin 4.32, Fin 10.8, 0)])
   \<and> gen_VT griddata_uniform 30 0 field_stale 1000 0.32
       \<noteq> gen_VT_requery griddata_uniform 30 0 field_stale 1000 0.32"
  using run_stale run_stale_requery by simp








end
